theory Spec2Isabelle
  imports Main "HOL-Library.Word" "HOL-Library.Char_ord" "HOL-Library.List_Lexorder"
begin

section \<open>The semantic-version library used by the resolver\<close>

text \<open>
  \<^verbatim>\<open>pkg/git/git.go\<close> computes with \<^verbatim>\<open>*semver.Version\<close> of
  \<^verbatim>\<open>github.com/coreos/go-semver\<close>: a struct of three \<^verbatim>\<open>int64\<close>
  components, a prerelease string and a metadata string, with methods that mutate the
  receiver in place (\<^verbatim>\<open>BumpMajor\<close>, \<^verbatim>\<open>BumpMinor\<close>, \<^verbatim>\<open>BumpPatch\<close>) and the
  precedence test \<^verbatim>\<open>LessThan\<close>. The library is a dependency of the repository; the
  definitions of this section follow its documented behaviour.
\<close>

type_synonym int64 = "64 word"

record Version =
  Major :: int64
  Minor :: int64
  Patch :: int64
  PreRelease :: string
  Metadata :: string

text \<open>
  \<^verbatim>\<open>BumpMajor\<close> "increments the Major field by 1 and resets all other fields to their
  default values"; likewise \<^verbatim>\<open>BumpMinor\<close> and \<^verbatim>\<open>BumpPatch\<close> for the fields below
  theirs, the prerelease and the metadata. The addition is that of \<^verbatim>\<open>int64\<close>.
\<close>

definition BumpMajor :: "Version \<Rightarrow> Version" where
  "BumpMajor v = v\<lparr>Major := Major v + 1, Minor := 0, Patch := 0, PreRelease := [], Metadata := []\<rparr>"

definition BumpMinor :: "Version \<Rightarrow> Version" where
  "BumpMinor v = v\<lparr>Minor := Minor v + 1, Patch := 0, PreRelease := [], Metadata := []\<rparr>"

definition BumpPatch :: "Version \<Rightarrow> Version" where
  "BumpPatch v = v\<lparr>Patch := Patch v + 1, PreRelease := [], Metadata := []\<rparr>"

definition Slice :: "Version \<Rightarrow> int64 list" where
  "Slice v = [Major v, Minor v, Patch v]"

text \<open>
  \<^verbatim>\<open>recursiveCompare\<close> walks two slices of the same length (always the two
  three-element slices of \<^verbatim>\<open>Slice\<close>) and compares them as signed integers.
\<close>

fun recursiveCompare :: "int64 list \<Rightarrow> int64 list \<Rightarrow> int" where
  "recursiveCompare [] _ = 0"
| "recursiveCompare (a # as) (b # bs) =
     (if sint a > sint b then 1
      else if sint a < sint b then - 1
      else recursiveCompare as bs)"

text \<open>\<^verbatim>\<open>strings.Split(s, ".")\<close>: the fields between the dots; one empty field for the empty string.\<close>

fun splitDot :: "string \<Rightarrow> string list" where
  "splitDot [] = [[]]"
| "splitDot (c # cs) =
     (if c = CHR ''.'' then [] # splitDot cs
      else (case splitDot cs of f # fs \<Rightarrow> (c # f) # fs | [] \<Rightarrow> [[c]]))"

definition isDigit :: "char \<Rightarrow> bool" where
  "isDigit c \<longleftrightarrow> (48::nat) \<le> of_char c \<and> of_char c \<le> (57::nat)"

definition digitsVal :: "string \<Rightarrow> int" where
  "digitsVal ds = foldl (\<lambda>n c. n * 10 + (int (of_char c) - 48)) 0 ds"

text \<open>
  \<^verbatim>\<open>strconv.Atoi\<close> on a 64-bit platform: an optional sign, at least one decimal digit and
  nothing else, and a value that fits \<^verbatim>\<open>int\<close>; \<open>None\<close> is the error return.
\<close>

definition Atoi :: "string \<Rightarrow> int option" where
  "Atoi s =
     (let neg = (s \<noteq> [] \<and> hd s = CHR ''-'');
          ds = (if s \<noteq> [] \<and> (hd s = CHR ''-'' \<or> hd s = CHR ''+'') then tl s else s)
      in if ds = [] \<or> \<not> list_all isDigit ds then None
         else (let v = (if neg then - digitsVal ds else digitsVal ds)
               in if - (2 ^ 63) \<le> v \<and> v < 2 ^ 63 then Some v else None))"

fun recursivePreReleaseCompare :: "string list \<Rightarrow> string list \<Rightarrow> int" where
  "recursivePreReleaseCompare [] [] = 0"
| "recursivePreReleaseCompare [] (b # bs) = - 1"
| "recursivePreReleaseCompare (a # as) [] = 1"
| "recursivePreReleaseCompare (a # as) (b # bs) =
     (let aI = Atoi a; bI = Atoi b in
      if aI \<noteq> None \<and> bI = None then - 1
      else if aI = None \<and> bI \<noteq> None then 1
      else if aI \<noteq> None \<and> bI \<noteq> None \<and> the aI > the bI then 1
      else if aI \<noteq> None \<and> bI \<noteq> None \<and> the aI < the bI then - 1
      else if a > b then 1
      else if a < b then - 1
      else recursivePreReleaseCompare as bs)"

definition preReleaseCompare :: "Version \<Rightarrow> Version \<Rightarrow> int" where
  "preReleaseCompare versionA versionB =
     (let a = PreRelease versionA; b = PreRelease versionB in
      if length a = 0 \<and> length b > 0 then 1
      else if length b = 0 \<and> length a > 0 then - 1
      else recursivePreReleaseCompare (splitDot a) (splitDot b))"

definition Compare :: "Version \<Rightarrow> Version \<Rightarrow> int" where
  "Compare v versionB =
     (let cmp = recursiveCompare (Slice v) (Slice versionB) in
      if cmp \<noteq> 0 then cmp else preReleaseCompare v versionB)"

definition LessThan :: "Version \<Rightarrow> Version \<Rightarrow> bool" where
  "LessThan v versionB \<longleftrightarrow> Compare v versionB < 0"

section \<open>Version assembly: \<^verbatim>\<open>getVersion\<close>\<close>

text \<open>
  Versions are reached through pointers, and \<^verbatim>\<open>getVersion\<close> mutates the object its
  base pointer refers to. The store maps addresses to the objects; a pointer is an
  address or \<^verbatim>\<open>nil\<close> (\<open>None\<close>).
\<close>

type_synonym addr = nat
type_synonym ptr = "addr option"
type_synonym heap = "addr \<Rightarrow> Version"

record gitVersion =
  IsSolid :: bool
  Name :: ptr
  MajorBump :: bool
  MinorBump :: bool
  PatchBump :: bool
  Commit :: string

datatype error =
    CannotDetermineVersion  \<comment> \<open>"Cannot determine version in branch"\<close>
  | BranchBehindDefault     \<comment> \<open>"Branch has calculated version ... whose version is less than master ..."\<close>
  | CannotDetermineBranch   \<comment> \<open>"Cannot determine branch"\<close>
  | NoDefaultBranch         \<comment> \<open>"failed to get default branch"\<close>
  | LibraryError string     \<comment> \<open>an error returned by the repository library, passed on\<close>
  | PanicNilDereference     \<comment> \<open>run-time panic: nil pointer dereference\<close>
  | PanicOutOfRange         \<comment> \<open>run-time panic: index or slice bounds out of range\<close>

text \<open>A method with a pointer receiver, called on a pointer: panics on \<^verbatim>\<open>nil\<close>.\<close>

definition onObject :: "(Version \<Rightarrow> Version) \<Rightarrow> ptr \<Rightarrow> heap \<Rightarrow> error + heap" where
  "onObject f p h = (case p of None \<Rightarrow> Inl PanicNilDereference | Some a \<Rightarrow> Inr (h(a := f (h a))))"

text \<open>The body of the loop of lines 220-230: the \<^verbatim>\<open>switch\<close> takes the first true flag.\<close>

definition bumpStep :: "gitVersion \<Rightarrow> ptr \<Rightarrow> heap \<Rightarrow> error + heap" where
  "bumpStep v baseVersion h =
     (if MajorBump v then onObject BumpMajor baseVersion h
      else if MinorBump v then onObject BumpMinor baseVersion h
      else if PatchBump v then onObject BumpPatch baseVersion h
      else Inr h)"

text \<open>
  \<^verbatim>\<open>for ; index >= 0; index-- { v := versionMap[index]; ... }\<close>. The counter of the
  model is \<open>index + 1\<close>, so \<open>bumpLoop vm b (Suc i)\<close> is the loop at \<open>index = i\<close>; the
  loop is only entered with \<open>index < len(versionMap)\<close>.
\<close>

fun bumpLoop :: "gitVersion list \<Rightarrow> ptr \<Rightarrow> nat \<Rightarrow> heap \<Rightarrow> error + heap" where
  "bumpLoop versionMap baseVersion 0 h = Inr h"
| "bumpLoop versionMap baseVersion (Suc i) h =
     (case bumpStep (versionMap ! i) baseVersion h of
        Inl e \<Rightarrow> Inl e
      | Inr h' \<Rightarrow> bumpLoop versionMap baseVersion i h')"

text \<open>\<^verbatim>\<open>%d\<close> of a non-negative integer.\<close>

fun decimal :: "nat \<Rightarrow> string" where
  "decimal n =
     (if n < 10 then [''0123456789'' ! n]
      else decimal (n div 10) @ [''0123456789'' ! (n mod 10)])"

declare decimal.simps [simp del]

text \<open>\<^verbatim>\<open>fmt.Sprintf("%s-%d-%s", currentBranch, len(versionMap)-1, shortHash)\<close>\<close>

definition prereleaseLabel :: "string \<Rightarrow> nat \<Rightarrow> string \<Rightarrow> string" where
  "prereleaseLabel currentBranch n shortHash = currentBranch @ ''-'' @ decimal n @ ''-'' @ shortHash"

text \<open>
  \<^verbatim>\<open>getVersion\<close> from line 203 on, where the two branch walkers have returned: \<open>h\<close> is
  the store they leave, \<open>masterVersion\<close> the result of \<^verbatim>\<open>masterWalker.GetVersion()\<close>,
  \<open>versionMap\<close> the result of \<^verbatim>\<open>walker.GetVersionMap()\<close> (newest first),
  \<open>currentBranch\<close> the result of \<^verbatim>\<open>getCurrentBranch\<close>, \<open>hHash\<close> the string of
  \<^verbatim>\<open>h.Hash()\<close> and \<open>forbid\<close> the flag \<^verbatim>\<open>ForbidBehindDefaultBranch\<close>. This part runs
  only when the head is not the default branch's commit (line 188). The result is the
  returned pointer with the store, or the error or panic.
\<close>

definition getVersion ::
  "heap \<Rightarrow> string \<Rightarrow> string \<Rightarrow> bool \<Rightarrow> ptr \<Rightarrow> gitVersion list \<Rightarrow> error + (ptr \<times> heap)" where
  "getVersion h currentBranch hHash forbid masterVersion versionMap =
     (let index = int (length versionMap) - 1 in
      if index = - 1 then Inl CannotDetermineVersion
      else
        let solid = IsSolid (versionMap ! nat index);
            baseVersion = (if solid then Name (versionMap ! nat index) else masterVersion);
            index = (if solid then index - 1 else index)
        in
        if index < 0 then Inr (baseVersion, h)
        else
          (case bumpLoop versionMap baseVersion (nat (index + 1)) h of
             Inl e \<Rightarrow> Inl e
           | Inr h1 \<Rightarrow>
               if length hHash < 4 then Inl PanicOutOfRange
               else
                 let shortHash = take 4 hHash;
                     prerelease = prereleaseLabel currentBranch (length versionMap - 1) shortHash
                 in
                 (case baseVersion of
                    None \<Rightarrow> Inl PanicNilDereference
                  | Some b \<Rightarrow>
                      let h2 = h1(b := (h1 b)\<lparr>PreRelease := prerelease\<rparr>) in
                      if forbid then
                        (case masterVersion of
                           None \<Rightarrow> Inl PanicNilDereference
                         | Some m \<Rightarrow>
                             if LessThan (h2 b) (h2 m) then Inl BranchBehindDefault
                             else Inr (baseVersion, h2))
                      else Inr (baseVersion, h2))))"

section \<open>Branch names: \<^verbatim>\<open>cleanseBranchName\<close>\<close>

text \<open>
  Strings are byte sequences. The character class \<^verbatim>\<open>[^a-zA-Z0-9]\<close> is matched rune by
  rune, and every byte of a rune outside ASCII (and every byte of an invalid encoding) is
  itself outside the class, so the runs of non-matching runes are the runs of
  non-matching bytes.
\<close>

definition isAlnum :: "char \<Rightarrow> bool" where
  "isAlnum c \<longleftrightarrow>
     (CHR ''a'' \<le> c \<and> c \<le> CHR ''z'') \<or> (CHR ''A'' \<le> c \<and> c \<le> CHR ''Z'') \<or>
     (CHR ''0'' \<le> c \<and> c \<le> CHR ''9'')"

text \<open>
  \<^verbatim>\<open>regexp.Compile("[^a-zA-Z0-9]+")\<close> and \<^verbatim>\<open>reg.ReplaceAllString(name, "-")\<close>: matches
  are found left to right, each as long as possible, and replaced by the dash.
\<close>

function replaceAllNonAlnum :: "string \<Rightarrow> string" where
  "replaceAllNonAlnum [] = []"
| "replaceAllNonAlnum (c # cs) =
     (if isAlnum c then c # replaceAllNonAlnum cs
      else CHR ''-'' # replaceAllNonAlnum (dropWhile (\<lambda>d. \<not> isAlnum d) cs))"
  by pat_completeness auto
termination
  by (relation "measure length") (auto simp: length_dropWhile_le less_Suc_eq_le)

text \<open>
  \<^verbatim>\<open>regexp.Compile("^(feature|hotfix)-")\<close> and \<^verbatim>\<open>reg.ReplaceAllString(branchName, "")\<close>:
  the pattern is anchored at the start of the text, so it matches at most once.
\<close>

definition trimFeatureHotfix :: "string \<Rightarrow> string" where
  "trimFeatureHotfix s =
     (if take 8 s = ''feature-'' then drop 8 s
      else if take 7 s = ''hotfix-'' then drop 7 s
      else s)"

text \<open>Both patterns are constants that compile, so the error returns are never taken.\<close>

definition cleanseBranchName :: "string \<Rightarrow> bool \<Rightarrow> error + string" where
  "cleanseBranchName name trimPrefix =
     (let branchName = replaceAllNonAlnum name in
      if \<not> trimPrefix then Inr branchName
      else Inr (trimFeatureHotfix branchName))"

section \<open>The current branch: \<^verbatim>\<open>getCurrentBranch\<close>\<close>

text \<open>
  A \<^verbatim>\<open>*plumbing.Reference\<close> as the code observes it: its name, whether
  \<^verbatim>\<open>Name().IsBranch()\<close> holds, what \<^verbatim>\<open>Name().Short()\<close> returns, and the string of its
  hash. The process environment is a map: \<^verbatim>\<open>os.LookupEnv\<close> returns the value and
  whether the variable is set.
\<close>

record reference =
  RefName :: string
  IsBranch :: bool
  Short :: string
  Hash :: string

type_synonym environ = "string \<rightharpoonup> string"

text \<open>
  The callback of \<^verbatim>\<open>refs.ForEach\<close> (lines 279-284) overwrites \<^verbatim>\<open>branchName\<close> at every
  branch reference whose hash is the head's.
\<close>

fun scanRefs :: "string \<Rightarrow> reference list \<Rightarrow> string \<Rightarrow> string" where
  "scanRefs hHash [] branchName = branchName"
| "scanRefs hHash (r # rs) branchName =
     scanRefs hHash rs (if IsBranch r \<and> Hash r = hHash then Short r else branchName)"

text \<open>
  \<open>refs\<close> is what \<^verbatim>\<open>r.References()\<close> and the iteration give: the references in the
  order of the iteration, or the error of either. \<open>hHash\<close> is the head's hash.
\<close>

definition getCurrentBranch ::
  "environ \<Rightarrow> (error + reference list) \<Rightarrow> string \<Rightarrow> bool \<Rightarrow> bool \<Rightarrow> error + string" where
  "getCurrentBranch env refs hHash ignoreEnvVars trimBranchPrefix =
     (let fromEnv =
        (if \<not> ignoreEnvVars then
           (case env ''TRAVIS_PULL_REQUEST_BRANCH'' of
              Some name \<Rightarrow> Some (cleanseBranchName name trimBranchPrefix)
            | None \<Rightarrow>
               (case env ''TRAVIS_BRANCH'' of
                  Some name \<Rightarrow> Some (cleanseBranchName name trimBranchPrefix)
                | None \<Rightarrow>
                   (case env ''CI_COMMIT_REF_NAME'' of
                      Some name \<Rightarrow> Some (cleanseBranchName name trimBranchPrefix)
                    | None \<Rightarrow> None)))
         else None)
      in case fromEnv of
           Some result \<Rightarrow> result
         | None \<Rightarrow>
            (case refs of
               Inl e \<Rightarrow> Inl e
             | Inr rs \<Rightarrow>
                 let branchName = scanRefs hHash rs [] in
                 if branchName = [] then Inl CannotDetermineBranch
                 else cleanseBranchName branchName trimBranchPrefix))"

section \<open>The prerelease command: \<^verbatim>\<open>GetPrereleaseLabel\<close> and \<^verbatim>\<open>runPrerelease\<close>\<close>

text \<open>\<open>head\<close> is the result of \<^verbatim>\<open>r.Head()\<close>; its error is wrapped and returned.\<close>

definition GetPrereleaseLabel ::
  "environ \<Rightarrow> (error + reference list) \<Rightarrow> (error + reference) \<Rightarrow> bool \<Rightarrow> bool \<Rightarrow> error + string" where
  "GetPrereleaseLabel env refs head ignoreEnvVars trimBranchPrefix =
     (case head of
        Inl e \<Rightarrow> Inl e
      | Inr h \<Rightarrow> getCurrentBranch env refs (Hash h) ignoreEnvVars trimBranchPrefix)"

datatype outcome = Printed string | Panicked error

text \<open>
  \<^verbatim>\<open>runPrerelease\<close> once the repository is open: its branch settings set only
  \<^verbatim>\<open>TrimBranchPrefix\<close>, so \<^verbatim>\<open>IgnoreEnvVars\<close> is false. \<^verbatim>\<open>fmt.Println\<close> writes the
  label and a newline to standard output.
\<close>

definition runPrerelease ::
  "environ \<Rightarrow> (error + reference list) \<Rightarrow> (error + reference) \<Rightarrow> bool \<Rightarrow> outcome" where
  "runPrerelease env refs head trimPrefix =
     (case GetPrereleaseLabel env refs head False trimPrefix of
        Inl err \<Rightarrow> Panicked err
      | Inr label \<Rightarrow>
          let label = (if label = ''master'' then [] else label) in
          Printed (label @ [CHR 0x0A]))"

section \<open>The default branch: \<^verbatim>\<open>getDefaultBranch\<close>\<close>

text \<open>
  The repository is seen through \<^verbatim>\<open>r.Reference(refName, true)\<close> (\<open>resolve\<close>: the
  resolved reference or the library's error) and through \<^verbatim>\<open>r.Remote("origin")\<close> with
  \<^verbatim>\<open>origin.Config().Fetch\<close> (\<open>remoteOrigin\<close>: the fetch refspecs, or the error when
  there is no such remote). The methods of \<^verbatim>\<open>config.RefSpec\<close> belong to the go-git
  library and are parameters.
\<close>

record refSpecLib =
  Reverse :: "string \<Rightarrow> string"
  Match :: "string \<Rightarrow> string \<Rightarrow> bool"
  Dst :: "string \<Rightarrow> string \<Rightarrow> string"

definition Master :: string where
  "Master = ''refs/heads/master''"

text \<open>
  The loop of lines 144-156. The variable \<^verbatim>\<open>ref\<close> is assigned inside the loop:
  \<^verbatim>\<open>tryResolve\<close> returns \<^verbatim>\<open>nil\<close> with its error, and the next iteration evaluates
  \<^verbatim>\<open>ref.Name()\<close>, which reads a field through the pointer. \<^verbatim>\<open>localRefName[0]\<close>
  indexes the string.
\<close>

fun fetchLoop ::
  "refSpecLib \<Rightarrow> (string \<Rightarrow> error + reference) \<Rightarrow> string list \<Rightarrow> reference option \<Rightarrow> error + reference" where
  "fetchLoop lib resolve [] ref = Inl NoDefaultBranch"
| "fetchLoop lib resolve (rs # rest) ref =
     (case ref of
        None \<Rightarrow> Inl PanicNilDereference
      | Some rf \<Rightarrow>
          let rs' = Reverse lib rs in
          if Match lib rs' (RefName rf) then
            (let localRefName = Dst lib rs' (RefName rf) in
             if localRefName = [] then Inl PanicOutOfRange
             else
               let localRefName = (if hd localRefName = CHR ''+'' then tl localRefName else localRefName) in
               (case resolve localRefName of
                  Inr ref' \<Rightarrow> Inr ref'
                | Inl err \<Rightarrow> fetchLoop lib resolve rest None))
          else fetchLoop lib resolve rest ref)"

definition getDefaultBranch ::
  "refSpecLib \<Rightarrow> (string \<Rightarrow> error + reference) \<Rightarrow> (error + string list) \<Rightarrow> string \<Rightarrow> error + reference" where
  "getDefaultBranch lib resolve remoteOrigin defaultBranch =
     (case resolve defaultBranch of
        Inr ref \<Rightarrow> Inr ref
      | Inl err \<Rightarrow>
          (case (if defaultBranch \<noteq> Master then resolve Master else Inl err) of
             Inr ref \<Rightarrow> Inr ref
           | Inl err \<Rightarrow>
               (case remoteOrigin of
                  Inl err \<Rightarrow> Inl NoDefaultBranch
                | Inr fetch \<Rightarrow>
                    (case resolve ''refs/remotes/origin/HEAD'' of
                       Inl err \<Rightarrow> Inl NoDefaultBranch
                     | Inr ref \<Rightarrow> fetchLoop lib resolve fetch (Some ref)))))"

section \<open>The known-tag map of \<^verbatim>\<open>GetCurrentVersion\<close>\<close>

text \<open>\<^verbatim>\<open>strings.Replace(s, old, "", -1)\<close>: every occurrence of \<open>old\<close>, left to right, is removed.\<close>

function deleteAll :: "string \<Rightarrow> string \<Rightarrow> string" where
  "deleteAll old s =
     (if old = [] \<or> s = [] then s
      else if take (length old) s = old then deleteAll old (drop (length old) s)
      else hd s # deleteAll old (tl s))"
  by pat_completeness auto
termination
  by (relation "measure (\<lambda>(old, s). length s)") auto

declare deleteAll.simps [simp del]

text \<open>An annotated tag: its name and what \<^verbatim>\<open>ref.Commit()\<close> gives, the commit's hash or an error.\<close>

record tagObject =
  TagName :: string
  TagCommit :: "error + string"

type_synonym tagMap = "string \<rightharpoonup> string"

fun lightweightTags :: "reference list \<Rightarrow> tagMap \<Rightarrow> tagMap" where
  "lightweightTags [] tagMap = tagMap"
| "lightweightTags (ref # refs) tagMap =
     lightweightTags refs (tagMap(Hash ref \<mapsto> deleteAll ''refs/tags/'' (RefName ref)))"

fun annotatedTags :: "tagObject list \<Rightarrow> tagMap \<Rightarrow> error + tagMap" where
  "annotatedTags [] tagMap = Inr tagMap"
| "annotatedTags (ref # refs) tagMap =
     (case TagCommit ref of
        Inl err \<Rightarrow> Inl err
      | Inr c \<Rightarrow> annotatedTags refs (tagMap(c \<mapsto> TagName ref)))"

text \<open>
  Lines 49-86 of \<^verbatim>\<open>GetCurrentVersion\<close>, which build the map handed to
  \<^verbatim>\<open>getVersion\<close>: \<open>ltags\<close> is the enumeration of \<^verbatim>\<open>r.Tags()\<close>, \<open>tags\<close> that of
  \<^verbatim>\<open>r.TagObjects()\<close>.
\<close>

definition buildTagMap :: "(error + reference list) \<Rightarrow> (error + tagObject list) \<Rightarrow> error + tagMap" where
  "buildTagMap ltags tags =
     (case ltags of
        Inl err \<Rightarrow> Inl err
      | Inr ls \<Rightarrow>
          let tagMap = lightweightTags ls Map.empty in
          (case tags of
             Inl err \<Rightarrow> Inl err
           | Inr ts \<Rightarrow> annotatedTags ts tagMap))"

section \<open>The properties in the words of the specification\<close>

text \<open>The order of versions on the numeric tuple alone: lexicographic over major, minor, patch.\<close>

definition numericLess :: "Version \<Rightarrow> Version \<Rightarrow> bool" where
  "numericLess a b \<longleftrightarrow>
     sint (Major a) < sint (Major b) \<or>
     (Major a = Major b \<and>
       (sint (Minor a) < sint (Minor b) \<or>
        (Minor a = Minor b \<and> sint (Patch a) < sint (Patch b))))"

definition numericEq :: "Version \<Rightarrow> Version \<Rightarrow> bool" where
  "numericEq a b \<longleftrightarrow> Major a = Major b \<and> Minor a = Minor b \<and> Patch a = Patch b"

text \<open>What one record does to the version it is applied to.\<close>

definition bumpOf :: "Version \<Rightarrow> gitVersion \<Rightarrow> Version" where
  "bumpOf v r =
     (if MajorBump r then BumpMajor v
      else if MinorBump r then BumpMinor v
      else if PatchBump r then BumpPatch v
      else v)"

definition hasBump :: "gitVersion \<Rightarrow> bool" where
  "hasBump r \<longleftrightarrow> MajorBump r \<or> MinorBump r \<or> PatchBump r"

text \<open>The base of the assembly and the records left to fold, for a non-empty sequence.\<close>

definition baseOf :: "ptr \<Rightarrow> gitVersion list \<Rightarrow> ptr" where
  "baseOf masterVersion versionMap =
     (if IsSolid (last versionMap) then Name (last versionMap) else masterVersion)"

definition remainingRecords :: "gitVersion list \<Rightarrow> gitVersion list" where
  "remainingRecords versionMap =
     (if IsSolid (last versionMap) then butlast versionMap else versionMap)"

text \<open>Folding a list of records, first element first, into the object at the base pointer.\<close>

fun applyBumps :: "ptr \<Rightarrow> gitVersion list \<Rightarrow> heap \<Rightarrow> error + heap" where
  "applyBumps base [] h = Inr h"
| "applyBumps base (r # rs) h =
     (case bumpStep r base h of Inl e \<Rightarrow> Inl e | Inr h' \<Rightarrow> applyBumps base rs h')"

text \<open>
  The assembly from a chosen base and the records to fold (newest first): nothing to
  fold returns the base as it is; otherwise the records are folded oldest first, the
  label with the count \<open>n\<close> is attached and the check against the default branch made.
\<close>

definition assembleFrom ::
  "heap \<Rightarrow> string \<Rightarrow> string \<Rightarrow> bool \<Rightarrow> ptr \<Rightarrow> nat \<Rightarrow> ptr \<Rightarrow> gitVersion list \<Rightarrow> error + (ptr \<times> heap)" where
  "assembleFrom h currentBranch hHash forbid masterVersion n base records =
     (if records = [] then Inr (base, h)
      else
        (case applyBumps base (rev records) h of
           Inl e \<Rightarrow> Inl e
         | Inr h1 \<Rightarrow>
             if length hHash < 4 then Inl PanicOutOfRange
             else
               (case base of
                  None \<Rightarrow> Inl PanicNilDereference
                | Some b \<Rightarrow>
                    let h2 = h1(b := (h1 b)\<lparr>PreRelease := prereleaseLabel currentBranch n (take 4 hHash)\<rparr>) in
                    if forbid then
                      (case masterVersion of
                         None \<Rightarrow> Inl PanicNilDereference
                       | Some m \<Rightarrow>
                           if LessThan (h2 b) (h2 m) then Inl BranchBehindDefault
                           else Inr (base, h2))
                    else Inr (base, h2))))"

text \<open>The maximal runs of a string: neighbours of the same class stay together.\<close>

function groupRuns :: "string \<Rightarrow> string list" where
  "groupRuns [] = []"
| "groupRuns (c # cs) =
     (c # takeWhile (\<lambda>d. isAlnum d = isAlnum c) cs) #
     groupRuns (dropWhile (\<lambda>d. isAlnum d = isAlnum c) cs)"
  by pat_completeness auto
termination
  by (relation "measure length") (auto simp: length_dropWhile_le less_Suc_eq_le)

text \<open>Every run outside \<^verbatim>\<open>[A-Za-z0-9]\<close> becomes one dash; the other runs stay.\<close>

definition sanitizeRuns :: "string \<Rightarrow> string" where
  "sanitizeRuns s = concat (map (\<lambda>r. if isAlnum (hd r) then r else ''-'') (groupRuns s))"

text \<open>Neighbouring runs differ in class, so no run can be extended.\<close>

fun alternating :: "string list \<Rightarrow> bool" where
  "alternating (r1 # r2 # rs) \<longleftrightarrow> isAlnum (hd r1) \<noteq> isAlnum (hd r2) \<and> alternating (r2 # rs)"
| "alternating _ \<longleftrightarrow> True"

section \<open>Concrete inputs\<close>

text \<open>
  A store whose objects are all the version 1.0.0, and commit records: one with no bump,
  one tagged (solid) whose version is the object at an address, one with a major and one
  with a minor bump.
\<close>

definition v100 :: Version where
  "v100 = \<lparr>Major = 1, Minor = 0, Patch = 0, PreRelease = [], Metadata = []\<rparr>"

definition exHeap :: heap where
  "exHeap = (\<lambda>a. v100)"

definition plainCommit :: gitVersion where
  "plainCommit = \<lparr>IsSolid = False, Name = None, MajorBump = False, MinorBump = False,
     PatchBump = False, Commit = ''abcdef0123''\<rparr>"

definition solidCommit :: "addr \<Rightarrow> gitVersion" where
  "solidCommit a = \<lparr>IsSolid = True, Name = Some a, MajorBump = False, MinorBump = False,
     PatchBump = False, Commit = ''0123456789''\<rparr>"

definition majorCommit :: gitVersion where
  "majorCommit = plainCommit\<lparr>MajorBump := True\<rparr>"

definition minorCommit :: gitVersion where
  "minorCommit = plainCommit\<lparr>MinorBump := True\<rparr>"

text \<open>
  A clone with no local branch: the remote \<^verbatim>\<open>origin\<close> has two fetch refspecs, its
  \<^verbatim>\<open>HEAD\<close> resolves to \<^verbatim>\<open>refs/remotes/origin/main\<close>, and no other reference
  resolves. The refspec methods are given at the arguments the run passes them:
  reversing the first refspec, matching the reversed refspec against the resolved name,
  and the destination \<^verbatim>\<open>+refs/heads/main\<close>.
\<close>

definition exFetch :: "string list" where
  "exFetch = [''+refs/heads/*:refs/remotes/origin/*'', ''+refs/tags/*:refs/tags/*'']"

definition exLib :: refSpecLib where
  "exLib = \<lparr>
     Reverse = (\<lambda>rs. if rs = ''+refs/heads/*:refs/remotes/origin/*''
                      then ''refs/remotes/origin/*:+refs/heads/*''
                      else ''refs/tags/*:+refs/tags/*''),
     Match = (\<lambda>rs n. rs = ''refs/remotes/origin/*:+refs/heads/*'' \<and> n = ''refs/remotes/origin/main''),
     Dst = (\<lambda>rs n. ''+refs/heads/main'')\<rparr>"

definition exOriginHead :: reference where
  "exOriginHead = \<lparr>RefName = ''refs/remotes/origin/main'', IsBranch = False,
     Short = ''origin/main'', Hash = ''a1b2c3d4''\<rparr>"

definition exResolve :: "string \<Rightarrow> error + reference" where
  "exResolve n =
     (if n = ''refs/remotes/origin/HEAD'' then Inr exOriginHead
      else Inl (LibraryError ''reference not found''))"

text \<open>A lightweight and an annotated tag on the same commit.\<close>

definition exLightweight :: reference where
  "exLightweight = \<lparr>RefName = ''refs/tags/v1.0.0'', IsBranch = False, Short = ''v1.0.0'',
     Hash = ''a1b2c3d4''\<rparr>"

definition exAnnotated :: tagObject where
  "exAnnotated = \<lparr>TagName = ''v2.0.0'', TagCommit = Inr ''a1b2c3d4''\<rparr>"

text \<open>A branch reference and a head on its commit.\<close>

definition exBranch :: "string \<Rightarrow> string \<Rightarrow> reference" where
  "exBranch short hash = \<lparr>RefName = ''refs/heads/'' @ short, IsBranch = True, Short = short, Hash = hash\<rparr>"

definition exHead :: reference where
  "exHead = \<lparr>RefName = ''HEAD'', IsBranch = False, Short = ''HEAD'', Hash = ''a1b2c3d4''\<rparr>"

section \<open>The loop of \<^verbatim>\<open>getVersion\<close> is a fold, oldest record first\<close>

lemma bumpLoop_applyBumps:
  "n \<le> length vm \<Longrightarrow> bumpLoop vm b n h = applyBumps b (rev (take n vm)) h"
  by (induction n arbitrary: h) (auto simp: take_Suc_conv_app_nth split: sum.splits)

lemma bumpStep_Some: "bumpStep r (Some a) h = Inr (h(a := bumpOf (h a) r))"
  by (simp add: bumpStep_def bumpOf_def onObject_def)

lemma bumpStep_None: "bumpStep r None h = (if hasBump r then Inl PanicNilDereference else Inr h)"
  by (simp add: bumpStep_def hasBump_def onObject_def)

lemma applyBumps_Some: "applyBumps (Some a) rs h = Inr (h(a := foldl bumpOf (h a) rs))"
  by (induction rs arbitrary: h) (simp_all add: bumpStep_Some)

lemma applyBumps_None:
  "applyBumps None rs h = (if list_ex hasBump rs then Inl PanicNilDereference else Inr h)"
  by (induction rs arbitrary: h) (simp_all add: bumpStep_None)

lemma getVersion_assembleFrom:
  assumes "vm \<noteq> []"
  shows "getVersion h cb hh f m vm =
         assembleFrom h cb hh f m (length vm - 1) (baseOf m vm) (remainingRecords vm)"
proof -
  from assms obtain xs x where vm: "vm = xs @ [x]"
    by (cases vm rule: rev_cases) auto
  have bl1: "bumpLoop (xs @ [x]) b (length xs) h = applyBumps b (rev xs) h" for b h
    by (simp add: bumpLoop_applyBumps)
  have bl2: "bumpLoop (xs @ [x]) b (Suc (length xs)) h = applyBumps b (x # rev xs) h" for b h
    using bumpLoop_applyBumps [of "Suc (length xs)" "xs @ [x]" b h] by simp
  have i1: "nat (int (length xs) - 1 + 1) = length xs" if "xs \<noteq> []"
    using that by simp
  have i2: "nat (int (length xs) + 1) = Suc (length xs)"
    by simp
  show ?thesis
  proof (cases "IsSolid x")
    case True
    then show ?thesis
      by (cases "xs = []")
         (simp_all add: vm getVersion_def assembleFrom_def baseOf_def remainingRecords_def
           bl1 i1 Let_def cong: sum.case_cong option.case_cong if_cong)
  next
    case False
    then show ?thesis
      by (simp add: vm getVersion_def assembleFrom_def baseOf_def remainingRecords_def
           bl1 bl2 i2 Let_def cong: sum.case_cong option.case_cong if_cong)
  qed
qed

lemma decimal_small: "n < 10 \<Longrightarrow> decimal n = [''0123456789'' ! n]"
  by (simp add: decimal.simps)

lemma prereleaseLabel_nonempty: "prereleaseLabel cb n s \<noteq> []"
  by (simp add: prereleaseLabel_def)

lemma assembleFrom_label:
  assumes "assembleFrom h cb hh f m n base recs = Inr (p, h')" "recs \<noteq> []"
  shows "\<exists>b. p = Some b \<and> base = Some b \<and> 4 \<le> length hh \<and>
           h' = h(b := (foldl bumpOf (h b) (rev recs))\<lparr>PreRelease := prereleaseLabel cb n (take 4 hh)\<rparr>)"
proof (cases base)
  case None
  with assms show ?thesis
    by (auto simp: assembleFrom_def applyBumps_None split: if_splits)
next
  case (Some b)
  with assms show ?thesis
    by (auto simp: assembleFrom_def applyBumps_Some Let_def split: if_splits option.splits)
qed

lemma assembleFrom_forbid:
  assumes "assembleFrom h cb hh False m n base recs = Inr (Some b, h')" "recs \<noteq> []"
  shows "assembleFrom h cb hh True (Some a) n base recs =
           (if LessThan (h' b) (h' a) then Inl BranchBehindDefault else Inr (Some b, h'))"
proof -
  from assembleFrom_label [OF assms] have base: "base = Some b" and len: "4 \<le> length hh"
    and h': "h' = h(b := (foldl bumpOf (h b) (rev recs))\<lparr>PreRelease := prereleaseLabel cb n (take 4 hh)\<rparr>)"
    by auto
  show ?thesis
    using assms(2) len
    by (simp add: assembleFrom_def applyBumps_Some Let_def base h')
qed

section \<open>The precedence test\<close>

lemma recursiveCompare_triple:
  "recursiveCompare [a1, a2, a3] [b1, b2, b3] =
     (if sint a1 > sint b1 then 1 else if sint a1 < sint b1 then - 1
      else if sint a2 > sint b2 then 1 else if sint a2 < sint b2 then - 1
      else if sint a3 > sint b3 then 1 else if sint a3 < sint b3 then - 1 else 0)"
  by simp

lemma recursiveCompare3_less:
  "recursiveCompare (Slice a) (Slice b) < 0 \<longleftrightarrow> numericLess a b"
  unfolding Slice_def numericLess_def recursiveCompare_triple
    word_eq_iff_signed [where ?'a = int]
  by (simp split: if_splits)

lemma recursiveCompare3_eq:
  "recursiveCompare (Slice a) (Slice b) = 0 \<longleftrightarrow> numericEq a b"
  unfolding Slice_def numericEq_def recursiveCompare_triple
    word_eq_iff_signed [where ?'a = int]
  by (simp split: if_splits)

lemma numericLess_not_Eq: "numericLess a b \<Longrightarrow> \<not> numericEq a b"
  by (auto simp: numericLess_def numericEq_def)

lemma LessThan_iff:
  "LessThan a b \<longleftrightarrow> numericLess a b \<or> (numericEq a b \<and> preReleaseCompare a b < 0)"
  using numericLess_not_Eq [of a b]
  by (auto simp: LessThan_def Compare_def Let_def recursiveCompare3_less recursiveCompare3_eq)

lemma recursivePreReleaseCompare_refl: "recursivePreReleaseCompare xs xs = 0"
  by (induction xs) (simp_all add: Let_def)

lemma preReleaseCompare_refl: "preReleaseCompare v v = 0"
  by (simp add: preReleaseCompare_def recursivePreReleaseCompare_refl Let_def)

lemma LessThan_irrefl: "\<not> LessThan v v"
  by (simp add: LessThan_iff preReleaseCompare_refl numericLess_def)


section \<open>Version assembly\<close>

text \<open>
  C4. For a non-empty traversal sequence the base is chosen by the last (oldest) record:
  when it is solid, its version (the pointer \<open>Name\<close>) is the base and the record is left
  out of the aggregation (\<open>butlast\<close>); otherwise the base is the default-branch version
  and every record is aggregated. The empty sequence is the error "Cannot determine
  version in branch".
\<close>

theorem getVersion_base_selection:
  "getVersion h cb hh f m [] = Inl CannotDetermineVersion \<and>
   (vm \<noteq> [] \<longrightarrow>
      getVersion h cb hh f m vm =
        assembleFrom h cb hh f m (length vm - 1)
          (if IsSolid (last vm) then Name (last vm) else m)
          (if IsSolid (last vm) then butlast vm else vm))"
  using getVersion_assembleFrom [of vm h cb hh f m]
  by (simp add: getVersion_def baseOf_def remainingRecords_def)

text \<open>
  The theorem at a sequence with a solid oldest record and at one without: the base is
  the tagged version at address 1, or the default-branch version at address 0.
\<close>

theorem getVersion_base_selection_witness:
  "getVersion exHeap ''b'' ''abcdef'' False (Some 0) [majorCommit, solidCommit 1] =
     assembleFrom exHeap ''b'' ''abcdef'' False (Some 0) 1 (Some 1) [majorCommit] \<and>
   getVersion exHeap ''b'' ''abcdef'' False (Some 0) [majorCommit, plainCommit] =
     assembleFrom exHeap ''b'' ''abcdef'' False (Some 0) 1 (Some 0) [majorCommit, plainCommit]"
  using getVersion_base_selection [of exHeap "''b''" "''abcdef''" False "Some 0" "[majorCommit, solidCommit 1]"]
    getVersion_base_selection [of exHeap "''b''" "''abcdef''" False "Some 0" "[majorCommit, plainCommit]"]
  by (simp add: solidCommit_def plainCommit_def)

text \<open>
  C5. The loop over \<open>index\<close> downwards folds the records oldest first: it is
  \<open>applyBumps\<close> on the reversed prefix, and on an object it is the left fold of
  \<open>bumpOf\<close>; the version \<^verbatim>\<open>getVersion\<close> returns is that fold over the remaining
  records, with the label attached. A record with the major, minor or patch flag (the
  first that is set) increments that component of the running version; the library
  resets the components below it, the prerelease and the metadata. A record with no
  flag changes nothing.
\<close>

theorem bump_aggregation_oldest_first:
  "(n \<le> length vm \<longrightarrow> bumpLoop vm p n h = applyBumps p (rev (take n vm)) h) \<and>
   (n \<le> length vm \<longrightarrow>
      bumpLoop vm (Some b) n h = Inr (h(b := foldl bumpOf (h b) (rev (take n vm))))) \<and>
   (vm \<noteq> [] \<and> remainingRecords vm \<noteq> [] \<and> getVersion h cb hh f m vm = Inr (Some b, h') \<longrightarrow>
      h' b = (foldl bumpOf (h b) (rev (remainingRecords vm)))
               \<lparr>PreRelease := prereleaseLabel cb (length vm - 1) (take 4 hh)\<rparr>) \<and>
   bumpStep r (Some b) h = Inr (h(b := bumpOf (h b) r)) \<and>
   (MajorBump r \<longrightarrow>
      bumpOf v r = v\<lparr>Major := Major v + 1, Minor := 0, Patch := 0, PreRelease := [], Metadata := []\<rparr>) \<and>
   (\<not> MajorBump r \<and> MinorBump r \<longrightarrow>
      bumpOf v r = v\<lparr>Minor := Minor v + 1, Patch := 0, PreRelease := [], Metadata := []\<rparr>) \<and>
   (\<not> MajorBump r \<and> \<not> MinorBump r \<and> PatchBump r \<longrightarrow>
      bumpOf v r = v\<lparr>Patch := Patch v + 1, PreRelease := [], Metadata := []\<rparr>) \<and>
   (\<not> MajorBump r \<and> \<not> MinorBump r \<and> \<not> PatchBump r \<longrightarrow>
      bumpOf v r = v \<and> bumpStep r p h = Inr h)"
proof -
  have whole: "h' b = (foldl bumpOf (h b) (rev (remainingRecords vm)))
               \<lparr>PreRelease := prereleaseLabel cb (length vm - 1) (take 4 hh)\<rparr>"
    if vm: "vm \<noteq> []" and rem: "remainingRecords vm \<noteq> []"
      and res: "getVersion h cb hh f m vm = Inr (Some b, h')"
  proof -
    from res have "assembleFrom h cb hh f m (length vm - 1) (baseOf m vm) (remainingRecords vm) =
        Inr (Some b, h')"
      by (simp add: getVersion_assembleFrom [OF vm])
    from assembleFrom_label [OF this rem] show ?thesis
      by auto
  qed
  have steps: "(MajorBump r \<longrightarrow>
      bumpOf v r = v\<lparr>Major := Major v + 1, Minor := 0, Patch := 0, PreRelease := [], Metadata := []\<rparr>) \<and>
   (\<not> MajorBump r \<and> MinorBump r \<longrightarrow>
      bumpOf v r = v\<lparr>Minor := Minor v + 1, Patch := 0, PreRelease := [], Metadata := []\<rparr>) \<and>
   (\<not> MajorBump r \<and> \<not> MinorBump r \<and> PatchBump r \<longrightarrow>
      bumpOf v r = v\<lparr>Patch := Patch v + 1, PreRelease := [], Metadata := []\<rparr>) \<and>
   (\<not> MajorBump r \<and> \<not> MinorBump r \<and> \<not> PatchBump r \<longrightarrow>
      bumpOf v r = v \<and> bumpStep r p h = Inr h)"
    by (simp add: bumpOf_def bumpStep_def BumpMajor_def BumpMinor_def BumpPatch_def)
  from whole steps show ?thesis
    by (simp add: bumpLoop_applyBumps applyBumps_Some bumpStep_Some)
qed

text \<open>
  The order matters: from 1.0.0, a minor bump (newest) above a major bump (oldest) gives
  2.1.0, the other order gives 2.0.0.
\<close>

theorem bump_aggregation_oldest_first_witness:
  "bumpLoop [minorCommit, majorCommit] (Some 0) 2 exHeap =
     Inr (exHeap(0 := \<lparr>Major = 2, Minor = 1, Patch = 0, PreRelease = [], Metadata = []\<rparr>)) \<and>
   bumpLoop [majorCommit, minorCommit] (Some 0) 2 exHeap =
     Inr (exHeap(0 := \<lparr>Major = 2, Minor = 0, Patch = 0, PreRelease = [], Metadata = []\<rparr>)) \<and>
   bumpOf v100 plainCommit = v100 \<and>
   remainingRecords [minorCommit, majorCommit] \<noteq> [] \<and>
   getVersion exHeap ''b'' ''abcdef'' False (Some 0) [minorCommit, majorCommit] =
     Inr (Some 0, exHeap(0 := \<lparr>Major = 2, Minor = 1, Patch = 0, PreRelease = ''b-1-abcd'', Metadata = []\<rparr>)) \<and>
   foldl bumpOf (exHeap 0) (rev (remainingRecords [minorCommit, majorCommit])) =
     \<lparr>Major = 2, Minor = 1, Patch = 0, PreRelease = [], Metadata = []\<rparr>"
proof -
  have run: "getVersion exHeap ''b'' ''abcdef'' False (Some 0) [minorCommit, majorCommit] =
     Inr (Some 0, exHeap(0 := \<lparr>Major = 2, Minor = 1, Patch = 0, PreRelease = ''b-1-abcd'', Metadata = []\<rparr>))"
    by (simp add: getVersion_def majorCommit_def minorCommit_def plainCommit_def bumpStep_def
          onObject_def BumpMajor_def BumpMinor_def prereleaseLabel_def decimal_small exHeap_def
          v100_def Let_def eval_nat_numeral)
  have rem: "remainingRecords [minorCommit, majorCommit] = [minorCommit, majorCommit]"
    by (simp add: remainingRecords_def majorCommit_def plainCommit_def)
  from bump_aggregation_oldest_first [where n = 2 and vm = "[minorCommit, majorCommit]" and p = "Some 0"
      and h = exHeap and b = 0 and r = majorCommit and v = v100 and cb = "''b''" and hh = "''abcdef''"
      and f = False and m = "Some 0"
      and h' = "exHeap(0 := \<lparr>Major = 2, Minor = 1, Patch = 0, PreRelease = ''b-1-abcd'', Metadata = []\<rparr>)"]
    bump_aggregation_oldest_first [where n = 2 and vm = "[majorCommit, minorCommit]" and p = "Some 0"
      and h = exHeap and b = 0 and r = plainCommit and v = v100]
    run rem
  show ?thesis
    by (simp add: majorCommit_def minorCommit_def plainCommit_def exHeap_def v100_def
        bumpOf_def BumpMajor_def BumpMinor_def bumpStep_def onObject_def eval_nat_numeral)
qed

text \<open>
  C2, as the claim states it, fails: a sequence of one record that is not solid folds
  one record, and the label counts 0.
\<close>

theorem prerelease_label_counterexample:
  "getVersion exHeap ''b'' ''abcdef'' False (Some 0) [plainCommit] =
     Inr (Some 0, exHeap(0 := v100\<lparr>PreRelease := ''b-0-abcd''\<rparr>)) \<and>
   length (remainingRecords [plainCommit]) = 1 \<and>
   ''b-0-abcd'' \<noteq> prereleaseLabel ''b'' (length (remainingRecords [plainCommit])) (take 4 ''abcdef'')"
  by (simp add: getVersion_def plainCommit_def bumpStep_def prereleaseLabel_def decimal_small
        remainingRecords_def exHeap_def Let_def)

text \<open>
  C2 (amended). Whenever a record is left to fold and assembly returns, the returned
  version's prerelease label is the branch name, a dash, the length of the traversal
  sequence minus one in decimal, a dash, and the first four characters of the head's
  hash. That count is the number of folded records when the oldest record is solid, and
  one less when it is not.
\<close>

theorem prerelease_label_format:
  "vm \<noteq> [] \<and> remainingRecords vm \<noteq> [] \<and> getVersion h cb hh f m vm = Inr (p, h') \<longrightarrow>
     (\<exists>b. p = Some b \<and>
        PreRelease (h' b) = cb @ ''-'' @ decimal (length vm - 1) @ ''-'' @ take 4 hh \<and>
        length (take 4 hh) = 4 \<and>
        length vm - 1 =
          (if IsSolid (last vm) then length (remainingRecords vm)
           else length (remainingRecords vm) - 1))"
proof (intro impI, elim conjE)
  assume vm: "vm \<noteq> []" and rem: "remainingRecords vm \<noteq> []"
    and res: "getVersion h cb hh f m vm = Inr (p, h')"
  from res have "assembleFrom h cb hh f m (length vm - 1) (baseOf m vm) (remainingRecords vm) = Inr (p, h')"
    by (simp add: getVersion_assembleFrom [OF vm])
  from assembleFrom_label [OF this rem] obtain b where b: "p = Some b" "4 \<le> length hh"
    "h' = h(b := (foldl bumpOf (h b) (rev (remainingRecords vm)))
             \<lparr>PreRelease := prereleaseLabel cb (length vm - 1) (take 4 hh)\<rparr>)"
    by auto
  then show "\<exists>b. p = Some b \<and>
        PreRelease (h' b) = cb @ ''-'' @ decimal (length vm - 1) @ ''-'' @ take 4 hh \<and>
        length (take 4 hh) = 4 \<and>
        length vm - 1 =
          (if IsSolid (last vm) then length (remainingRecords vm)
           else length (remainingRecords vm) - 1)"
    by (simp add: prereleaseLabel_def remainingRecords_def)
qed

text \<open>The label of a branch two commits above a tagged commit.\<close>

theorem prerelease_label_format_witness:
  "[plainCommit, plainCommit, solidCommit 1] \<noteq> [] \<and>
   remainingRecords [plainCommit, plainCommit, solidCommit 1] \<noteq> [] \<and>
   getVersion exHeap ''my-feature'' ''a1b2c3d4'' False (Some 0) [plainCommit, plainCommit, solidCommit 1] =
     Inr (Some 1, exHeap(1 := v100\<lparr>PreRelease := ''my-feature-2-a1b2''\<rparr>)) \<and>
   (\<exists>b. Some (1::nat) = Some b \<and>
      PreRelease ((exHeap(1 := v100\<lparr>PreRelease := ''my-feature-2-a1b2''\<rparr>)) b) =
        ''my-feature'' @ ''-'' @ decimal (length [plainCommit, plainCommit, solidCommit 1] - 1) @ ''-'' @
        take 4 ''a1b2c3d4'')"
proof -
  have run: "getVersion exHeap ''my-feature'' ''a1b2c3d4'' False (Some 0) [plainCommit, plainCommit, solidCommit 1] =
     Inr (Some 1, exHeap(1 := v100\<lparr>PreRelease := ''my-feature-2-a1b2''\<rparr>))"
    by (simp add: getVersion_def plainCommit_def solidCommit_def bumpStep_def prereleaseLabel_def
          decimal_small exHeap_def Let_def eval_nat_numeral)
  have rem: "remainingRecords [plainCommit, plainCommit, solidCommit 1] \<noteq> []"
    by (simp add: remainingRecords_def)
  from prerelease_label_format [of "[plainCommit, plainCommit, solidCommit 1]" exHeap "''my-feature''"
      "''a1b2c3d4''" False "Some 0" "Some 1" "exHeap(1 := v100\<lparr>PreRelease := ''my-feature-2-a1b2''\<rparr>)"]
    run rem
  show ?thesis by simp
qed

text \<open>
  C3. When the oldest record is not solid, the base pointer is the default-branch
  pointer: the bumps and the label are written into the default-branch version's own
  object, the pointer returned is that pointer, and the check compares the object with
  itself, so the result is never "branch behind default", whatever the flag.
\<close>

theorem shared_base_never_behind:
  "vm \<noteq> [] \<and> \<not> IsSolid (last vm) \<longrightarrow>
     getVersion h cb hh forbid m vm \<noteq> Inl BranchBehindDefault \<and>
     (m = Some a \<and> 4 \<le> length hh \<longrightarrow>
        getVersion h cb hh forbid m vm =
          Inr (m, h(a := (foldl bumpOf (h a) (rev vm))
                      \<lparr>PreRelease := prereleaseLabel cb (length vm - 1) (take 4 hh)\<rparr>)))"
proof (intro impI, elim conjE)
  assume vm: "vm \<noteq> []" and ns: "\<not> IsSolid (last vm)"
  have eq: "getVersion h cb hh forbid m vm = assembleFrom h cb hh forbid m (length vm - 1) m vm"
    using ns by (simp add: getVersion_assembleFrom [OF vm] baseOf_def remainingRecords_def)
  show "getVersion h cb hh forbid m vm \<noteq> Inl BranchBehindDefault \<and>
     (m = Some a \<and> 4 \<le> length hh \<longrightarrow>
        getVersion h cb hh forbid m vm =
          Inr (m, h(a := (foldl bumpOf (h a) (rev vm))
                      \<lparr>PreRelease := prereleaseLabel cb (length vm - 1) (take 4 hh)\<rparr>)))"
  proof (cases m)
    case None
    then show ?thesis
      unfolding eq using vm by (simp add: assembleFrom_def applyBumps_None)
  next
    case (Some b)
    then show ?thesis
      unfolding eq using vm by (simp add: assembleFrom_def applyBumps_Some Let_def LessThan_irrefl)
  qed
qed

text \<open>With the flag on: the default-branch object at address 0 becomes 2.0.0-b-1-abcd.\<close>

theorem shared_base_never_behind_witness:
  "[majorCommit, plainCommit] \<noteq> [] \<and> \<not> IsSolid (last [majorCommit, plainCommit]) \<and>
   getVersion exHeap ''b'' ''abcdef'' True (Some 0) [majorCommit, plainCommit] \<noteq> Inl BranchBehindDefault \<and>
   getVersion exHeap ''b'' ''abcdef'' True (Some 0) [majorCommit, plainCommit] =
     Inr (Some 0, exHeap(0 := \<lparr>Major = 2, Minor = 0, Patch = 0, PreRelease = ''b-1-abcd'', Metadata = []\<rparr>))"
  using shared_base_never_behind [of "[majorCommit, plainCommit]" exHeap "''b''" "''abcdef''" True "Some 0" 0]
  by (simp add: majorCommit_def plainCommit_def bumpOf_def BumpMajor_def exHeap_def v100_def
        prereleaseLabel_def decimal_small)

text \<open>
  C1, as the claim states it, fails: a branch one commit above a commit tagged 1.0.0,
  with the default branch at 1.0.0, assembles 1.0.0-b-1-abcd. The numeric tuples are
  equal, and with the flag on the assembly fails.
\<close>

theorem behind_default_counterexample:
  "getVersion exHeap ''b'' ''abcdef'' True (Some 0) [plainCommit, solidCommit 1] = Inl BranchBehindDefault \<and>
   getVersion exHeap ''b'' ''abcdef'' False (Some 0) [plainCommit, solidCommit 1] =
     Inr (Some 1, exHeap(1 := v100\<lparr>PreRelease := ''b-1-abcd''\<rparr>)) \<and>
   numericEq ((exHeap(1 := v100\<lparr>PreRelease := ''b-1-abcd''\<rparr>)) 1) (exHeap 0) \<and>
   \<not> numericLess ((exHeap(1 := v100\<lparr>PreRelease := ''b-1-abcd''\<rparr>)) 1) (exHeap 0)"
  by (simp add: getVersion_def plainCommit_def solidCommit_def bumpStep_def prereleaseLabel_def
        decimal_small exHeap_def Let_def eval_nat_numeral numericEq_def numericLess_def
        LessThan_def Compare_def Slice_def preReleaseCompare_def v100_def)

text \<open>
  C1 (amended). With the flag on and a default-branch version at hand: a sequence with
  nothing left to fold (a single solid record) returns its base unchecked. Otherwise,
  where assembly without the flag returns the version \<open>h' b\<close>, assembly with the flag
  fails with "branch behind default" exactly when that version, label included, is less
  than the default-branch version in the library's precedence: its numeric tuple is
  strictly less, or the tuples are equal and the prerelease comparison is negative. A
  base distinct from the default-branch object leaves that object as it was, and is
  below it on equal tuples when it has no prerelease; a base that is the default-branch
  object never fails.
\<close>

theorem behind_default_check:
  "vm \<noteq> [] \<and> m = Some a \<longrightarrow>
     (remainingRecords vm = [] \<longrightarrow> getVersion h cb hh True m vm = Inr (Name (last vm), h)) \<and>
     (remainingRecords vm \<noteq> [] \<and> getVersion h cb hh False m vm = Inr (Some b, h') \<longrightarrow>
        getVersion h cb hh True m vm =
          (if numericLess (h' b) (h' a) \<or>
              (numericEq (h' b) (h' a) \<and> preReleaseCompare (h' b) (h' a) < 0)
           then Inl BranchBehindDefault else Inr (Some b, h')) \<and>
        (b \<noteq> a \<longrightarrow> h' a = h a) \<and>
        (b \<noteq> a \<and> PreRelease (h a) = [] \<longrightarrow> preReleaseCompare (h' b) (h' a) < 0) \<and>
        (b = a \<longrightarrow> getVersion h cb hh True m vm = Inr (Some b, h')))"
proof (intro impI, elim conjE)
  assume vm: "vm \<noteq> []" and m: "m = Some a"
  note eq = getVersion_assembleFrom [OF vm]
  have one: "getVersion h cb hh True m vm = Inr (Name (last vm), h)" if "remainingRecords vm = []"
    using that vm by (auto simp: eq assembleFrom_def baseOf_def remainingRecords_def split: if_splits)
  have two: "getVersion h cb hh True m vm =
          (if numericLess (h' b) (h' a) \<or>
              (numericEq (h' b) (h' a) \<and> preReleaseCompare (h' b) (h' a) < 0)
           then Inl BranchBehindDefault else Inr (Some b, h')) \<and>
        (b \<noteq> a \<longrightarrow> h' a = h a) \<and>
        (b \<noteq> a \<and> PreRelease (h a) = [] \<longrightarrow> preReleaseCompare (h' b) (h' a) < 0) \<and>
        (b = a \<longrightarrow> getVersion h cb hh True m vm = Inr (Some b, h'))"
    if rem: "remainingRecords vm \<noteq> []" and res: "getVersion h cb hh False m vm = Inr (Some b, h')"
  proof -
    from res have as: "assembleFrom h cb hh False m (length vm - 1) (baseOf m vm) (remainingRecords vm) = Inr (Some b, h')"
      by (simp add: eq)
    from assembleFrom_label [OF as rem]
    have h': "h' = h(b := (foldl bumpOf (h b) (rev (remainingRecords vm)))
                 \<lparr>PreRelease := prereleaseLabel cb (length vm - 1) (take 4 hh)\<rparr>)"
      by auto
    have run: "getVersion h cb hh True m vm =
        (if LessThan (h' b) (h' a) then Inl BranchBehindDefault else Inr (Some b, h'))"
      using assembleFrom_forbid [OF as rem, of a] by (simp add: eq m)
    have pre: "preReleaseCompare (h' b) (h' a) < 0" if "b \<noteq> a" "PreRelease (h a) = []"
      using that prereleaseLabel_nonempty [of cb "length vm - 1" "take 4 hh"]
      by (simp add: h' preReleaseCompare_def)
    have same: "\<not> LessThan (h' b) (h' a)" if "b = a"
      using that by (simp add: LessThan_irrefl)
    show ?thesis
      using run pre same by (auto simp: LessThan_iff h')
  qed
  from one two
  show "(remainingRecords vm = [] \<longrightarrow> getVersion h cb hh True m vm = Inr (Name (last vm), h)) \<and>
     (remainingRecords vm \<noteq> [] \<and> getVersion h cb hh False m vm = Inr (Some b, h') \<longrightarrow>
        getVersion h cb hh True m vm =
          (if numericLess (h' b) (h' a) \<or>
              (numericEq (h' b) (h' a) \<and> preReleaseCompare (h' b) (h' a) < 0)
           then Inl BranchBehindDefault else Inr (Some b, h')) \<and>
        (b \<noteq> a \<longrightarrow> h' a = h a) \<and>
        (b \<noteq> a \<and> PreRelease (h a) = [] \<longrightarrow> preReleaseCompare (h' b) (h' a) < 0) \<and>
        (b = a \<longrightarrow> getVersion h cb hh True m vm = Inr (Some b, h')))"
    by blast
qed

text \<open>The check at the input of the counterexample, and at a single solid record.\<close>

theorem behind_default_check_witness:
  "[plainCommit, solidCommit 1] \<noteq> [] \<and> remainingRecords [plainCommit, solidCommit 1] \<noteq> [] \<and>
   getVersion exHeap ''b'' ''abcdef'' False (Some 0) [plainCommit, solidCommit 1] =
     Inr (Some 1, exHeap(1 := v100\<lparr>PreRelease := ''b-1-abcd''\<rparr>)) \<and>
   getVersion exHeap ''b'' ''abcdef'' True (Some 0) [plainCommit, solidCommit 1] =
     Inl BranchBehindDefault \<and>
   remainingRecords [solidCommit 1] = [] \<and>
   getVersion exHeap ''b'' ''abcdef'' True (Some 0) [solidCommit 1] = Inr (Some 1, exHeap)"
proof -
  have run: "getVersion exHeap ''b'' ''abcdef'' False (Some 0) [plainCommit, solidCommit 1] =
     Inr (Some 1, exHeap(1 := v100\<lparr>PreRelease := ''b-1-abcd''\<rparr>))"
    by (simp add: getVersion_def plainCommit_def solidCommit_def bumpStep_def prereleaseLabel_def
          decimal_small exHeap_def Let_def eval_nat_numeral)
  have rem: "remainingRecords [plainCommit, solidCommit 1] \<noteq> []"
    "remainingRecords [solidCommit 1] = []"
    by (simp_all add: remainingRecords_def solidCommit_def)
  have cmp: "numericEq ((exHeap(1 := v100\<lparr>PreRelease := ''b-1-abcd''\<rparr>)) 1)
      ((exHeap(1 := v100\<lparr>PreRelease := ''b-1-abcd''\<rparr>)) 0)"
    "preReleaseCompare ((exHeap(1 := v100\<lparr>PreRelease := ''b-1-abcd''\<rparr>)) 1)
      ((exHeap(1 := v100\<lparr>PreRelease := ''b-1-abcd''\<rparr>)) 0) < 0"
    by (simp_all add: numericEq_def preReleaseCompare_def exHeap_def v100_def)
  have last1: "Name (last [solidCommit 1]) = Some 1"
    by (simp add: solidCommit_def)
  from behind_default_check [of "[plainCommit, solidCommit 1]" "Some 0" 0 exHeap "''b''" "''abcdef''"
      1 "exHeap(1 := v100\<lparr>PreRelease := ''b-1-abcd''\<rparr>)"] run rem(1) cmp
  have forbidden: "getVersion exHeap ''b'' ''abcdef'' True (Some 0) [plainCommit, solidCommit 1] =
     Inl BranchBehindDefault"
    by simp
  from behind_default_check [of "[solidCommit 1]" "Some 0" 0 exHeap "''b''" "''abcdef''"] rem(2) last1
  have single: "getVersion exHeap ''b'' ''abcdef'' True (Some 0) [solidCommit 1] = Inr (Some 1, exHeap)"
    by simp
  from run rem forbidden single show ?thesis
    by simp
qed

section \<open>The default branch\<close>

lemma fetchLoop_nil: "fetchLoop lib resolve fetch None =
    (if fetch = [] then Inl NoDefaultBranch else Inl PanicNilDereference)"
  by (cases fetch) simp_all

lemma getDefaultBranch_first:
  "resolve d = Inr ref \<Longrightarrow> getDefaultBranch lib resolve ro d = Inr ref"
  by (simp add: getDefaultBranch_def)

lemma getDefaultBranch_second:
  "resolve d = Inl e \<Longrightarrow> d \<noteq> Master \<Longrightarrow> resolve Master = Inr ref \<Longrightarrow>
   getDefaultBranch lib resolve ro d = Inr ref"
  by (simp add: getDefaultBranch_def)

lemma getDefaultBranch_panic:
  assumes "resolve d = Inl e1" "d = Master \<or> resolve Master = Inl e2"
    "resolve ''refs/remotes/origin/HEAD'' = Inr ref"
    "Match lib (Reverse lib rs) (RefName ref)"
    "Dst lib (Reverse lib rs) (RefName ref) = CHR ''+'' # l"
    "resolve l = Inl e3" "rest \<noteq> []"
  shows "getDefaultBranch lib resolve (Inr (rs # rest)) d = Inl PanicNilDereference"
  using assms by (auto simp: getDefaultBranch_def fetchLoop_nil)

text \<open>
  C6. The order of the three steps is as claimed, but the last sentence is not what the
  code does: when a fetch refspec matches and its local reference does not resolve,
  \<^verbatim>\<open>ref\<close> is \<^verbatim>\<open>nil\<close>, and with another refspec left the loop reads
  \<^verbatim>\<open>ref.Name()\<close>. In the clone with no local branch all three steps fail, and the
  result is the panic, not the error "failed to get default branch".
\<close>

theorem getDefaultBranch_nil_dereference:
  "getDefaultBranch exLib exResolve (Inr exFetch) Master = Inl PanicNilDereference"
  by (simp add: getDefaultBranch_def exResolve_def exFetch_def exLib_def exOriginHead_def Master_def)

section \<open>The current branch\<close>

lemma getCurrentBranch_signal:
  "env ''TRAVIS_PULL_REQUEST_BRANCH'' = Some name \<Longrightarrow>
   getCurrentBranch env refs hHash False trimPrefix = cleanseBranchName name trimPrefix"
  by (simp add: getCurrentBranch_def)

lemma getCurrentBranch_scan:
  "ignoreEnvVars \<or>
     (env ''TRAVIS_PULL_REQUEST_BRANCH'' = None \<and> env ''TRAVIS_BRANCH'' = None \<and>
      env ''CI_COMMIT_REF_NAME'' = None) \<Longrightarrow>
   getCurrentBranch env (Inr rs) hHash ignoreEnvVars trimPrefix =
     (if scanRefs hHash rs [] = [] then Inl CannotDetermineBranch
      else cleanseBranchName (scanRefs hHash rs []) trimPrefix)"
  by (auto simp: getCurrentBranch_def Let_def)

text \<open>
  C7. The signals are read in the claimed order, but a signal that is set to the empty
  string ends the resolution as well: with \<^verbatim>\<open>TRAVIS_PULL_REQUEST_BRANCH\<close> set and
  empty and \<^verbatim>\<open>TRAVIS_BRANCH\<close> set to \<^verbatim>\<open>develop\<close>, the result is the empty branch
  name, whatever the references are. (\<^verbatim>\<open>GetCurrentVersion\<close> tests
  \<^verbatim>\<open>TRAVIS_TAG\<close> with \<^verbatim>\<open>ok && tag != ""\<close>.)
\<close>

theorem getCurrentBranch_empty_signal:
  "getCurrentBranch [''TRAVIS_PULL_REQUEST_BRANCH'' \<mapsto> [], ''TRAVIS_BRANCH'' \<mapsto> ''develop'']
     refs hHash False trimPrefix = Inr []"
  by (simp add: getCurrentBranch_def cleanseBranchName_def trimFeatureHotfix_def)

section \<open>Sanitization\<close>

lemma replaceAllNonAlnum_alnum_prefix:
  "\<forall>c\<in>set xs. isAlnum c \<Longrightarrow> replaceAllNonAlnum (xs @ ys) = xs @ replaceAllNonAlnum ys"
  by (induction xs) simp_all

lemma sanitizeRuns_Nil: "sanitizeRuns [] = []"
  by (simp add: sanitizeRuns_def)

lemma sanitizeRuns_Cons:
  "sanitizeRuns (c # cs) =
     (if isAlnum c then c # takeWhile isAlnum cs @ sanitizeRuns (dropWhile isAlnum cs)
      else CHR ''-'' # sanitizeRuns (dropWhile (\<lambda>d. \<not> isAlnum d) cs))"
  by (simp add: sanitizeRuns_def)

lemma replaceAllNonAlnum_sanitizeRuns: "replaceAllNonAlnum s = sanitizeRuns s"
proof (induction "length s" arbitrary: s rule: less_induct)
  case less
  show ?case
  proof (cases s)
    case Nil
    then show ?thesis by (simp add: sanitizeRuns_Nil)
  next
    case (Cons c cs)
    have short: "length (dropWhile P cs) < length s" for P
      using length_dropWhile_le [of P cs] by (simp add: Cons)
    show ?thesis
    proof (cases "isAlnum c")
      case True
      have "replaceAllNonAlnum cs = replaceAllNonAlnum (takeWhile isAlnum cs @ dropWhile isAlnum cs)"
        by simp
      also have "\<dots> = takeWhile isAlnum cs @ replaceAllNonAlnum (dropWhile isAlnum cs)"
        by (rule replaceAllNonAlnum_alnum_prefix) (auto dest: set_takeWhileD)
      finally show ?thesis
        using True less [OF short [of isAlnum]] by (simp add: Cons sanitizeRuns_Cons)
    next
      case False
      then show ?thesis
        using less [OF short [of "\<lambda>d. \<not> isAlnum d"]] by (simp add: Cons sanitizeRuns_Cons)
    qed
  qed
qed

lemma concat_groupRuns: "concat (groupRuns s) = s"
  by (induction s rule: groupRuns.induct) simp_all

lemma groupRuns_uniform:
  "r \<in> set (groupRuns s) \<Longrightarrow> r \<noteq> [] \<and> (\<forall>c\<in>set r. isAlnum c = isAlnum (hd r))"
proof (induction s rule: groupRuns.induct)
  case 1
  then show ?case by simp
next
  case (2 c cs)
  let ?P = "\<lambda>d. isAlnum d = isAlnum c"
  from "2.prems" have "r = c # takeWhile ?P cs \<or> r \<in> set (groupRuns (dropWhile ?P cs))"
    by (simp only: groupRuns.simps set_simps insert_iff)
  then consider "r = c # takeWhile ?P cs" | "r \<in> set (groupRuns (dropWhile ?P cs))"
    by blast
  then show ?case
  proof cases
    case 1
    have tw: "\<forall>d\<in>set (takeWhile ?P cs). ?P d"
      using set_takeWhileD [of _ ?P cs] by blast
    have r: "hd r = c" "r \<noteq> []" "set r = insert c (set (takeWhile ?P cs))"
      by (simp_all add: 1)
    show ?thesis
      unfolding r using r(2) tw by blast
  next
    case 2
    then show ?thesis
      by (rule "2.IH")
  qed
qed

lemma hd_groupRuns: "s \<noteq> [] \<Longrightarrow> hd (hd (groupRuns s)) = hd s \<and> groupRuns s \<noteq> []"
  by (cases s) simp_all

lemma alternating_groupRuns: "alternating (groupRuns s)"
proof (induction s rule: groupRuns.induct)
  case 1
  then show ?case by simp
next
  case (2 c cs)
  let ?rest = "dropWhile (\<lambda>d. isAlnum d = isAlnum c) cs"
  show ?case
  proof (cases ?rest)
    case Nil
    then have "groupRuns ?rest = []"
      by (simp only: groupRuns.simps)
    then show ?thesis
      by (simp only: groupRuns.simps alternating.simps)
  next
    case (Cons d ds)
    then have "isAlnum d \<noteq> isAlnum c"
      using hd_dropWhile [of "\<lambda>d. isAlnum d = isAlnum c" cs] by auto
    moreover obtain r rs where "groupRuns ?rest = r # rs" "hd r = d"
      using Cons by simp
    ultimately show ?thesis
      using 2 Cons by auto
  qed
qed

lemma trimFeatureHotfix_feature: "trimFeatureHotfix (''feature-'' @ rest) = rest"
  by (simp add: trimFeatureHotfix_def)

lemma trimFeatureHotfix_hotfix: "trimFeatureHotfix (''hotfix-'' @ rest) = rest"
  by (simp add: trimFeatureHotfix_def)

text \<open>
  C8. \<^verbatim>\<open>cleanseBranchName\<close> without trimming is \<open>sanitizeRuns\<close>: the name is cut into
  its maximal runs (they concatenate to the name, each is non-empty and of one class, and
  neighbours differ in class), and every run outside \<^verbatim>\<open>[A-Za-z0-9]\<close> becomes one
  dash. With trimming, one leading \<^verbatim>\<open>feature-\<close> or \<^verbatim>\<open>hotfix-\<close> is then removed,
  and a name with neither prefix stays. \<^verbatim>\<open>feature/ABC-123\<close> becomes
  \<^verbatim>\<open>feature-ABC-123\<close>, and \<^verbatim>\<open>ABC-123\<close> with trimming.
\<close>

theorem cleanseBranchName_runs:
  "cleanseBranchName name False = Inr (sanitizeRuns name) \<and>
   cleanseBranchName name True = Inr (trimFeatureHotfix (sanitizeRuns name)) \<and>
   concat (groupRuns name) = name \<and>
   (\<forall>r\<in>set (groupRuns name). r \<noteq> [] \<and> (\<forall>c\<in>set r. isAlnum c = isAlnum (hd r))) \<and>
   alternating (groupRuns name) \<and>
   trimFeatureHotfix (''feature-'' @ rest) = rest \<and>
   trimFeatureHotfix (''hotfix-'' @ rest) = rest \<and>
   (take 8 s \<noteq> ''feature-'' \<and> take 7 s \<noteq> ''hotfix-'' \<longrightarrow> trimFeatureHotfix s = s) \<and>
   cleanseBranchName ''feature/ABC-123'' False = Inr ''feature-ABC-123'' \<and>
   cleanseBranchName ''feature/ABC-123'' True = Inr ''ABC-123''"
proof -
  have ex: "replaceAllNonAlnum ''feature/ABC-123'' = ''feature-ABC-123''"
    by (simp add: isAlnum_def)
  have c1: "cleanseBranchName name False = Inr (sanitizeRuns name)"
    by (simp add: cleanseBranchName_def replaceAllNonAlnum_sanitizeRuns)
  have c2: "cleanseBranchName name True = Inr (trimFeatureHotfix (sanitizeRuns name))"
    by (simp add: cleanseBranchName_def replaceAllNonAlnum_sanitizeRuns)
  have c3: "\<forall>r\<in>set (groupRuns name). r \<noteq> [] \<and> (\<forall>c\<in>set r. isAlnum c = isAlnum (hd r))"
    using groupRuns_uniform by blast
  have c4: "take 8 s \<noteq> ''feature-'' \<and> take 7 s \<noteq> ''hotfix-'' \<longrightarrow> trimFeatureHotfix s = s"
    by (simp add: trimFeatureHotfix_def)
  have e1: "cleanseBranchName ''feature/ABC-123'' False = Inr ''feature-ABC-123''"
    by (simp add: cleanseBranchName_def isAlnum_def)
  have e2: "cleanseBranchName ''feature/ABC-123'' True = Inr ''ABC-123''"
    by (simp add: cleanseBranchName_def isAlnum_def trimFeatureHotfix_def)
  from c1 c2 concat_groupRuns [of name] c3 alternating_groupRuns [of name]
    trimFeatureHotfix_feature [of rest] trimFeatureHotfix_hotfix [of rest] c4 e1 e2
  show ?thesis by blast
qed

text \<open>The runs of the example, a double separator, and a prefix that is removed once.\<close>

theorem cleanseBranchName_runs_witness:
  "groupRuns ''feature/ABC-123'' = [''feature'', ''/'', ''ABC'', ''-'', ''123''] \<and>
   sanitizeRuns ''feature/ABC-123'' = ''feature-ABC-123'' \<and>
   cleanseBranchName ''a/_b'' False = Inr ''a-b'' \<and>
   take 8 ''main'' \<noteq> ''feature-'' \<and> take 7 ''main'' \<noteq> ''hotfix-'' \<and>
   trimFeatureHotfix ''main'' = ''main'' \<and>
   trimFeatureHotfix ''feature-feature-x'' = ''feature-x''"
  using cleanseBranchName_runs [of "''feature/ABC-123''" "''feature-x''" "''main''"]
  by (simp add: isAlnum_def sanitizeRuns_def trimFeatureHotfix_def cleanseBranchName_def)

section \<open>The known-tag map\<close>

lemma annotatedTags_lookup:
  "annotatedTags ts m0 = Inr m \<Longrightarrow>
   m c = (if filter (\<lambda>t. TagCommit t = Inr c) ts = [] then m0 c
          else Some (TagName (last (filter (\<lambda>t. TagCommit t = Inr c) ts))))"
  by (induction ts arbitrary: m0) (auto split: sum.splits if_splits)

text \<open>
  C9. When the map is built and an annotated tag's commit has the hash \<open>c\<close>, the map
  sends \<open>c\<close> to the name of an annotated tag on that commit (the last one enumerated),
  whatever the lightweight tags are: the annotated tags are written after them.
\<close>

theorem annotated_tag_wins:
  "buildTagMap (Inr ls) (Inr ts) = Inr m \<and> t \<in> set ts \<and> TagCommit t = Inr c \<longrightarrow>
     m c = Some (TagName (last (filter (\<lambda>t. TagCommit t = Inr c) ts))) \<and>
     ((\<forall>t'\<in>set ts. TagCommit t' = Inr c \<longrightarrow> TagName t' = TagName t) \<longrightarrow> m c = Some (TagName t))"
proof (intro impI, elim conjE)
  assume b: "buildTagMap (Inr ls) (Inr ts) = Inr m" and t: "t \<in> set ts" "TagCommit t = Inr c"
  let ?fs = "filter (\<lambda>t. TagCommit t = Inr c) ts"
  from t have ne: "?fs \<noteq> []"
    by (auto simp: filter_empty_conv)
  from b have "annotatedTags ts (lightweightTags ls Map.empty) = Inr m"
    by (simp add: buildTagMap_def)
  from annotatedTags_lookup [OF this, of c] ne have m: "m c = Some (TagName (last ?fs))"
    by simp
  have "last ?fs \<in> set ?fs"
    using ne by (rule last_in_set)
  then have "last ?fs \<in> set ts \<and> TagCommit (last ?fs) = Inr c"
    by simp
  with m show "m c = Some (TagName (last ?fs)) \<and>
     ((\<forall>t'\<in>set ts. TagCommit t' = Inr c \<longrightarrow> TagName t' = TagName t) \<longrightarrow> m c = Some (TagName t))"
    by auto
qed

lemma deleteAll_example: "deleteAll ''refs/tags/'' ''refs/tags/v1.0.0'' = ''v1.0.0''"
  by (simp add: deleteAll.simps)

text \<open>A lightweight tag v1.0.0 and an annotated tag v2.0.0 on one commit.\<close>

theorem annotated_tag_wins_witness:
  "buildTagMap (Inr [exLightweight]) (Inr [exAnnotated]) =
     Inr [''a1b2c3d4'' \<mapsto> ''v1.0.0'', ''a1b2c3d4'' \<mapsto> ''v2.0.0''] \<and>
   exAnnotated \<in> set [exAnnotated] \<and> TagCommit exAnnotated = Inr ''a1b2c3d4'' \<and>
   Hash exLightweight = ''a1b2c3d4'' \<and>
   [''a1b2c3d4'' \<mapsto> ''v1.0.0'', ''a1b2c3d4'' \<mapsto> ''v2.0.0''] ''a1b2c3d4'' = Some (TagName exAnnotated) \<and>
   TagName exAnnotated = ''v2.0.0''"
proof -
  have run: "buildTagMap (Inr [exLightweight]) (Inr [exAnnotated]) =
     Inr [''a1b2c3d4'' \<mapsto> ''v1.0.0'', ''a1b2c3d4'' \<mapsto> ''v2.0.0'']"
    by (simp add: buildTagMap_def exLightweight_def exAnnotated_def deleteAll_example)
  from annotated_tag_wins [of "[exLightweight]" "[exAnnotated]"
      "[''a1b2c3d4'' \<mapsto> ''v1.0.0'', ''a1b2c3d4'' \<mapsto> ''v2.0.0'']" exAnnotated "''a1b2c3d4''"] run
  show ?thesis
    by (simp add: exAnnotated_def exLightweight_def)
qed

section \<open>The prerelease command\<close>

text \<open>
  C10. When the label is resolved, \<^verbatim>\<open>runPrerelease\<close> prints it (the sanitized result
  of \<^verbatim>\<open>getCurrentBranch\<close> at the head) and a newline, and prints the empty line when
  the label is \<^verbatim>\<open>master\<close>.
\<close>

theorem runPrerelease_output:
  "(head = Inr h \<longrightarrow>
      GetPrereleaseLabel env refs head False trimPrefix =
        getCurrentBranch env refs (Hash h) False trimPrefix) \<and>
   (GetPrereleaseLabel env refs head False trimPrefix = Inr label \<longrightarrow>
      runPrerelease env refs head trimPrefix =
        Printed ((if label = ''master'' then [] else label) @ [CHR 0x0A]))"
  by (simp add: runPrerelease_def GetPrereleaseLabel_def)

text \<open>On the branch master, and on the branch feature/ABC-123 with trimming.\<close>

theorem runPrerelease_output_witness:
  "GetPrereleaseLabel Map.empty (Inr [exBranch ''master'' ''a1b2c3d4'']) (Inr exHead) False False =
     Inr ''master'' \<and>
   runPrerelease Map.empty (Inr [exBranch ''master'' ''a1b2c3d4'']) (Inr exHead) False =
     Printed [CHR 0x0A] \<and>
   GetPrereleaseLabel Map.empty (Inr [exBranch ''feature/ABC-123'' ''a1b2c3d4'']) (Inr exHead) False True =
     Inr ''ABC-123'' \<and>
   runPrerelease Map.empty (Inr [exBranch ''feature/ABC-123'' ''a1b2c3d4'']) (Inr exHead) True =
     Printed (''ABC-123'' @ [CHR 0x0A])"
proof -
  have l1: "GetPrereleaseLabel Map.empty (Inr [exBranch ''master'' ''a1b2c3d4'']) (Inr exHead) False False =
     Inr ''master''"
    by (simp add: GetPrereleaseLabel_def getCurrentBranch_def exBranch_def exHead_def
          cleanseBranchName_def isAlnum_def)
  have l2: "GetPrereleaseLabel Map.empty (Inr [exBranch ''feature/ABC-123'' ''a1b2c3d4'']) (Inr exHead) False True =
     Inr ''ABC-123''"
    by (simp add: GetPrereleaseLabel_def getCurrentBranch_def exBranch_def exHead_def
          cleanseBranchName_def isAlnum_def trimFeatureHotfix_def)
  from runPrerelease_output [of "Inr exHead" exHead Map.empty "Inr [exBranch ''master'' ''a1b2c3d4'']" False "''master''"]
    runPrerelease_output [of "Inr exHead" exHead Map.empty "Inr [exBranch ''feature/ABC-123'' ''a1b2c3d4'']" True "''ABC-123''"]
    l1 l2
  show ?thesis by simp
qed

end
